theory Spec2Isabelle
  imports Main "HOL-Library.Word"
begin

section \<open>The script runtime as the interception shim sees it\<close>

text \<open>
  The shim of \<^verbatim>\<open>package mock\<close> works on values of the embedded JavaScript
  runtime. A value is a primitive or a reference to an object on the runtime's heap, and
  two objects are the same object when their addresses are equal. A text value is a
  sequence of UTF-16 code units; a Go string is kept as its sequence of code points.
  Call arguments are positions of a list, and an index is a position, hence a \<open>nat\<close>
  (the module configures only the positions 0 and 1).
\<close>

type_synonym addr = nat
type_synonym jstext = "16 word list"
type_synonym gostring = "nat list"

datatype val =
    VUndefined
  | VNull
  | VBool bool
  | VNumber int
  | VString jstext
  | VObject addr

text \<open>
  A function is either one supplied by the host (named by a number and interpreted by the
  host) or the closure built by \<open>wrap\<close>, which captures the original callable and the
  configured index.
\<close>

datatype func = Native nat | Wrapper func nat

text \<open>
  The errors a call into the runtime returns: a thrown exception with its value, the
  exception of a type error, and the two errors that are no exceptions (an interrupted
  or overflowed run).
\<close>

datatype go_error =
    Exception val
  | TypeError string
  | InterruptedError
  | StackOverflowError

text \<open>
  What a Go panic carries: an error raised as it is, a runtime value thrown from Go, the
  setup failure of \<open>throwf\<close>, and Go's run-time panic for a slice index out of range.
\<close>

datatype panic =
    Raised go_error
  | ThrownValue val
  | InvalidArg string
  | IndexOutOfRange nat nat

text \<open>
  A property is a data property (a value, and whether it is writable) or an accessor (a
  getter and a setter, each a host function or absent). An object has own properties, a
  prototype, may be closed to new properties, is callable when it carries a function, and
  is an error object of the runtime when it wraps a Go error.
\<close>

datatype property =
    Data val bool
  | Accessor "nat option" "nat option"

record object =
  props :: "string \<rightharpoonup> property"
  proto :: "addr option"
  extensible :: bool
  callable :: "func option"
  goError :: "go_error option"

record runtime =
  objects :: "object list"
  globalObject :: addr

record FunctionCall =
  This :: val
  Arguments :: "val list"

text \<open>
  A Go function that may panic returns a panic or a result, with the runtime it leaves.
  A callable, as \<open>AssertFunction\<close> hands it out, returns a value or an error, and a Go
  panic that is no exception passes through it.
\<close>

type_synonym 'a result = "(panic + 'a) \<times> runtime"
type_synonym Callable = "val \<Rightarrow> val list \<Rightarrow> runtime \<Rightarrow> (go_error + val) result"

text \<open>
  The host: its functions, and what exporting an object to a Go value does. \<open>Export\<close> of
  an object walks the object's enumerable properties and runs their getters, so it may
  raise and may change the runtime; \<open>export_object\<close> gives the Go string it yields, if it
  yields a string at all.
\<close>

record host =
  natives :: "nat \<Rightarrow> Callable"
  export_object :: "addr \<Rightarrow> runtime \<Rightarrow> (gostring option) result"

subsection \<open>Text values and Go strings\<close>

definition is_high :: "16 word \<Rightarrow> bool" where
  "is_high u = (0xD800 \<le> u \<and> u \<le> 0xDBFF)"

definition is_low :: "16 word \<Rightarrow> bool" where
  "is_low u = (0xDC00 \<le> u \<and> u \<le> 0xDFFF)"

text \<open>
  From code units to code points: a high surrogate followed by a low one is one code
  point, every other surrogate becomes the replacement character U+FFFD.
\<close>

fun utf16_decode :: "jstext \<Rightarrow> gostring" where
  "utf16_decode [] = []"
| "utf16_decode [u] = (if is_high u \<or> is_low u then [0xFFFD] else [unat u])"
| "utf16_decode (u # l # us) =
     (if is_high u \<and> is_low l
      then (0x10000 + (unat u - 0xD800) * 0x400 + (unat l - 0xDC00)) # utf16_decode us
      else if is_high u \<or> is_low u then 0xFFFD # utf16_decode (l # us)
      else unat u # utf16_decode (l # us))"

fun utf16_encode :: "gostring \<Rightarrow> jstext" where
  "utf16_encode [] = []"
| "utf16_encode (r # rs) =
     (if (0xD800 \<le> r \<and> r < 0xE000) \<or> 0x10FFFF < r then 0xFFFD # utf16_encode rs
      else if r < 0x10000 then of_nat r # utf16_encode rs
      else of_nat (0xD800 + (r - 0x10000) div 0x400)
           # of_nat (0xDC00 + (r - 0x10000) mod 0x400) # utf16_encode rs)"


text \<open>The text of an ASCII literal.\<close>

definition ascii :: "string \<Rightarrow> jstext" where
  "ascii s = map of_char s"

subsection \<open>Runtime primitives used by the shim\<close>

text \<open>
  The property a name resolves to and the object that owns it, searching the object and
  then its prototype chain. A chain has no cycle and so no more members than the heap
  has objects, which bounds the search.
\<close>

fun find_prop :: "nat \<Rightarrow> object list \<Rightarrow> addr \<Rightarrow> string \<Rightarrow> (addr \<times> property) option" where
  "find_prop 0 objs a name = None"
| "find_prop (Suc n) objs a name =
     (if a < length objs
      then (case props (objs ! a) name of
              Some p \<Rightarrow> Some (a, p)
            | None \<Rightarrow>
                (case proto (objs ! a) of
                   None \<Rightarrow> None
                 | Some b \<Rightarrow> find_prop n objs b name))
      else None)"

definition lookup_prop :: "runtime \<Rightarrow> addr \<Rightarrow> string \<Rightarrow> (addr \<times> property) option" where
  "lookup_prop rt a name = find_prop (length (objects rt)) (objects rt) a name"

text \<open>
  \<open>Object.Get\<close>: the value of the property, own or inherited; Go's \<open>nil\<close> (here \<open>None\<close>)
  when there is none. An accessor runs its getter, with the object as receiver, and
  \<open>Get\<close> panics with what the getter throws.
\<close>

definition Get :: "host \<Rightarrow> runtime \<Rightarrow> addr \<Rightarrow> string \<Rightarrow> (val option) result" where
  "Get h rt a name =
     (case lookup_prop rt a name of
        None \<Rightarrow> (Inr None, rt)
      | Some (owner, Data v w) \<Rightarrow> (Inr (Some v), rt)
      | Some (owner, Accessor None setter) \<Rightarrow> (Inr (Some VUndefined), rt)
      | Some (owner, Accessor (Some getter) setter) \<Rightarrow>
          (case natives h getter (VObject a) [] rt of
             (Inl p, rt') \<Rightarrow> (Inl p, rt')
           | (Inr (Inl err), rt') \<Rightarrow> (Inl (Raised err), rt')
           | (Inr (Inr v), rt') \<Rightarrow> (Inr (Some v), rt')))"

text \<open>
  \<open>Object.Set\<close>: an assignment to the named property, returning an error or none. A
  writable data property of the object is overwritten; a writable inherited one, or no
  property at all, makes a new own property when the object is extensible; an accessor
  runs its setter; everything else is a type error and stores nothing.
\<close>

definition store_own :: "runtime \<Rightarrow> addr \<Rightarrow> string \<Rightarrow> val \<Rightarrow> runtime" where
  "store_own rt a name v =
     rt\<lparr>objects := (objects rt)
          [a := (objects rt ! a)\<lparr>props := (props (objects rt ! a))(name \<mapsto> Data v True)\<rparr>]\<rparr>"

definition Set_prop :: "host \<Rightarrow> runtime \<Rightarrow> addr \<Rightarrow> string \<Rightarrow> val \<Rightarrow> (go_error option) result" where
  "Set_prop h rt a name v =
     (if \<not> a < length (objects rt) then (Inr (Some (TypeError name)), rt)
      else
        (case lookup_prop rt a name of
           None \<Rightarrow>
             if extensible (objects rt ! a) then (Inr None, store_own rt a name v)
             else (Inr (Some (TypeError name)), rt)
         | Some (owner, Data old w) \<Rightarrow>
             if w \<and> (owner = a \<or> extensible (objects rt ! a))
             then (Inr None, store_own rt a name v)
             else (Inr (Some (TypeError name)), rt)
         | Some (owner, Accessor getter None) \<Rightarrow> (Inr (Some (TypeError name)), rt)
         | Some (owner, Accessor getter (Some setter)) \<Rightarrow>
             (case natives h setter (VObject a) [v] rt of
                (Inl p, rt') \<Rightarrow> (Inl p, rt')
              | (Inr (Inl err), rt') \<Rightarrow> (Inr (Some err), rt')
              | (Inr (Inr u), rt') \<Rightarrow> (Inr None, rt'))))"

text \<open>
  \<open>Value.Export().(string)\<close>: a text exports to a Go string, by decoding its code
  units; an object exports as the host says; no other value exports to a string.
\<close>

fun Export_string :: "host \<Rightarrow> runtime \<Rightarrow> val \<Rightarrow> (gostring option) result" where
  "Export_string h rt (VString s) = (Inr (Some (utf16_decode s)), rt)"
| "Export_string h rt (VObject b) = export_object h b rt"
| "Export_string h rt v = (Inr None, rt)"

text \<open>\<open>Runtime.ToValue\<close> of a Go string, and of a Go function (a fresh function object).\<close>

definition ToValue_string :: "gostring \<Rightarrow> val" where
  "ToValue_string s = VString (utf16_encode s)"

definition ToValue_func :: "runtime \<Rightarrow> func \<Rightarrow> val \<times> runtime" where
  "ToValue_func rt f =
     (VObject (length (objects rt)),
      rt\<lparr>objects := objects rt @
        [\<lparr>props = Map.empty, proto = None, extensible = True, callable = Some f,
          goError = None\<rparr>]\<rparr>)"

text \<open>\<open>sobek.AssertFunction\<close>: the function of a callable object; \<open>nil\<close> is not callable.\<close>

fun AssertFunction :: "runtime \<Rightarrow> val option \<Rightarrow> func option" where
  "AssertFunction rt (Some (VObject a)) =
     (if a < length (objects rt) then callable (objects rt ! a) else None)"
| "AssertFunction rt v = None"

text \<open>
  \<open>Runtime.NewGoError\<close>: a fresh error object of the runtime that wraps the Go error; its
  message and value properties are kept as the wrapped error.
\<close>

definition NewGoError :: "runtime \<Rightarrow> go_error \<Rightarrow> val \<times> runtime" where
  "NewGoError rt err =
     (VObject (length (objects rt)),
      rt\<lparr>objects := objects rt @
        [\<lparr>props = Map.empty, proto = None, extensible = True, callable = None,
          goError = Some err\<rparr>]\<rparr>)"

text \<open>
  \<open>common.Throw\<close>: panics with the error itself when it is an exception of the runtime,
  and otherwise with a new error object that wraps it.
\<close>

fun is_exception :: "go_error \<Rightarrow> bool" where
  "is_exception (Exception v) = True"
| "is_exception (TypeError s) = True"
| "is_exception InterruptedError = False"
| "is_exception StackOverflowError = False"

definition Throw :: "go_error \<Rightarrow> runtime \<Rightarrow> 'a result" where
  "Throw err rt =
     (if is_exception err then (Inl (Raised err), rt)
      else (case NewGoError rt err of (e, rt') \<Rightarrow> (Inl (ThrownValue e), rt')))"

section \<open>The URL rewriter\<close>

text \<open>
  Modelled from the spec: the method \<open>rewrite\<close> of the module and its \<open>lookup\<close> table are
  not among the sources. The spec's \<open>rewrite(value)\<close>: a textual value that is a key of
  the Lookup Table becomes the mapped replacement, every other value is returned as it is.
\<close>

fun rewrite_value :: "(jstext \<rightharpoonup> jstext) \<Rightarrow> val \<Rightarrow> val" where
  "rewrite_value lookup (VString s) =
     (case lookup s of Some r \<Rightarrow> VString r | None \<Rightarrow> VString s)"
| "rewrite_value lookup v = v"

text \<open>
  Modelled from the spec: \<open>mod.rewrite(args, index)\<close> as the wrapper calls it, the
  rewriter applied to the argument at the index and written back into that slot. The
  wrapper calls it only with the index in range.
\<close>

definition rewrite :: "(jstext \<rightharpoonup> jstext) \<Rightarrow> val list \<Rightarrow> nat \<Rightarrow> val list" where
  "rewrite lookup args index =
     (if index < length args then args[index := rewrite_value lookup (args ! index)] else args)"

section \<open>The body normalizer\<close>

text \<open>
  \<open>parseBody\<close> indexes the argument slice first (a run-time panic when the index is out
  of range) and leaves silently unless the argument is an object. It reads \<open>body\<close>,
  leaves on \<open>nil\<close> and on undefined, exports the value, leaves unless that is a Go
  string, and then sets \<open>body\<close> to the value of that string; the error \<open>Set\<close> may return
  is dropped. A panic of \<open>Get\<close>, of \<open>Export\<close> or of a setter is not recovered.
\<close>

definition parseBody :: "host \<Rightarrow> runtime \<Rightarrow> val list \<Rightarrow> nat \<Rightarrow> unit result" where
  "parseBody h rt args index =
     (if \<not> index < length args then (Inl (IndexOutOfRange index (length args)), rt)
      else
        (case args ! index of
           VObject reqObj \<Rightarrow>
             (case Get h rt reqObj ''body'' of
                (Inl p, rt1) \<Rightarrow> (Inl p, rt1)
              | (Inr None, rt1) \<Rightarrow> (Inr (), rt1)
              | (Inr (Some bodyVal), rt1) \<Rightarrow>
                  if bodyVal = VUndefined then (Inr (), rt1)
                  else
                    (case Export_string h rt1 bodyVal of
                       (Inl p, rt2) \<Rightarrow> (Inl p, rt2)
                     | (Inr None, rt2) \<Rightarrow> (Inr (), rt2)
                     | (Inr (Some body), rt2) \<Rightarrow>
                         (case Set_prop h rt2 reqObj ''body'' (ToValue_string body) of
                            (Inl p, rt3) \<Rightarrow> (Inl p, rt3)
                          | (Inr err, rt3) \<Rightarrow> (Inr (), rt3))))
         | _ \<Rightarrow> (Inr (), rt)))"

section \<open>The call wrapper\<close>

text \<open>
  Modelled from the spec: the helper \<open>throwf\<close> and the error \<open>errInvalidArg\<close> are not
  among the sources. Wrapping a name that is absent or not callable fails fatally, with
  an error that aborts the setup.
\<close>

definition throwf :: "string \<Rightarrow> runtime \<Rightarrow> unit result" where
  "throwf method rt = (Inl (InvalidArg (method @ '' must be callable'')), rt)"

text \<open>
  The closure installed by \<open>wrap\<close>. With more arguments than the index it rewrites the
  slot and normalizes the body. It then calls the original against the global object
  with the argument slice (\<open>call_original\<close>, the closure's last lines), and throws the
  error the original returned or returns its value.
\<close>

definition call_original :: "Callable \<Rightarrow> val list \<Rightarrow> runtime \<Rightarrow> val result" where
  "call_original orig args rt =
     (case orig (VObject (globalObject rt)) args rt of
        (Inl p, rt') \<Rightarrow> (Inl p, rt')
      | (Inr (Inl err), rt') \<Rightarrow> Throw err rt'
      | (Inr (Inr v), rt') \<Rightarrow> (Inr v, rt'))"

definition wrapper ::
  "host \<Rightarrow> (jstext \<rightharpoonup> jstext) \<Rightarrow> nat \<Rightarrow> Callable \<Rightarrow> FunctionCall \<Rightarrow> runtime \<Rightarrow> val result" where
  "wrapper h lookup index orig call rt =
     (if length (Arguments call) > index
      then
        (let args = rewrite lookup (Arguments call) index in
         case parseBody h rt args index of
           (Inl p, rt1) \<Rightarrow> (Inl p, rt1)
         | (Inr u, rt1) \<Rightarrow> call_original orig args rt1)
      else call_original orig (Arguments call) rt)"

text \<open>
  Calling a function value the way the callable of \<open>AssertFunction\<close> does: a host
  function is the host's, a wrapper runs the closure above around the function it
  captured. An exception the closure panics with comes back as the returned error, a
  value it throws as the exception of that value.
\<close>

fun runWrapped :: "val result \<Rightarrow> (go_error + val) result" where
  "runWrapped (Inl (Raised err), rt) = (Inr (Inl err), rt)"
| "runWrapped (Inl (ThrownValue v), rt) = (Inr (Inl (Exception v)), rt)"
| "runWrapped (Inl p, rt) = (Inl p, rt)"
| "runWrapped (Inr v, rt) = (Inr (Inr v), rt)"

primrec call_func :: "host \<Rightarrow> (jstext \<rightharpoonup> jstext) \<Rightarrow> func \<Rightarrow> Callable" where
  "call_func h lookup (Native n) = natives h n"
| "call_func h lookup (Wrapper f index) =
     (\<lambda>this args rt.
        runWrapped (wrapper h lookup index (call_func h lookup f)
          \<lparr>This = this, Arguments = args\<rparr> rt))"

definition wrap :: "host \<Rightarrow> runtime \<Rightarrow> addr \<Rightarrow> string \<Rightarrow> nat \<Rightarrow> unit result" where
  "wrap h rt this method index =
     (case Get h rt this method of
        (Inl p, rt1) \<Rightarrow> (Inl p, rt1)
      | (Inr v, rt1) \<Rightarrow>
          (case AssertFunction rt1 v of
             None \<Rightarrow> throwf method rt1
           | Some orig \<Rightarrow>
               (case ToValue_func rt1 (Wrapper orig index) of
                  (w, rt2) \<Rightarrow>
                    (case Set_prop h rt2 this method w of
                       (Inl p, rt3) \<Rightarrow> (Inl p, rt3)
                     | (Inr (Some err), rt3) \<Rightarrow> Throw err rt3
                     | (Inr None, rt3) \<Rightarrow> (Inr (), rt3)))))"

subsection \<open>Module initialization\<close>

definition urlFirstMethods :: "string list" where
  "urlFirstMethods = [''get'', ''head'', ''post'', ''put'', ''patch'', ''options'', ''del'']"

definition urlSecondMethods :: "string list" where
  "urlSecondMethods = [''request'', ''asyncRequest'']"

fun wrap_each :: "host \<Rightarrow> runtime \<Rightarrow> addr \<Rightarrow> string list \<Rightarrow> nat \<Rightarrow> unit result" where
  "wrap_each h rt defaults [] index = (Inr (), rt)"
| "wrap_each h rt defaults (method # methods) index =
     (case wrap h rt defaults method index of
        (Inl p, rt') \<Rightarrow> (Inl p, rt')
      | (Inr u, rt') \<Rightarrow> wrap_each h rt' defaults methods index)"

definition wrapHTTPExports :: "host \<Rightarrow> runtime \<Rightarrow> addr \<Rightarrow> unit result" where
  "wrapHTTPExports h rt defaults =
     (case wrap_each h rt defaults urlFirstMethods 0 of
        (Inl p, rt1) \<Rightarrow> (Inl p, rt1)
      | (Inr u, rt1) \<Rightarrow> wrap_each h rt1 defaults urlSecondMethods 1)"

subsection \<open>Attributes that hold a function and can be assigned to\<close>

text \<open>
  The function a name resolves to when it is a data property holding a callable object,
  and whether an assignment to the name stores the assigned value as an own data
  property: the name resolves to a writable data property, own or inherited by an
  extensible object.
\<close>

definition method_at :: "runtime \<Rightarrow> addr \<Rightarrow> string \<Rightarrow> func option" where
  "method_at rt a name =
     (case lookup_prop rt a name of
        Some (owner, Data v w) \<Rightarrow> AssertFunction rt (Some v)
      | _ \<Rightarrow> None)"

definition assignable :: "runtime \<Rightarrow> addr \<Rightarrow> string \<Rightarrow> bool" where
  "assignable rt a name =
     (a < length (objects rt) \<and>
      (case lookup_prop rt a name of
         Some (owner, Data v w) \<Rightarrow> w \<and> (owner = a \<or> extensible (objects rt ! a))
       | _ \<Rightarrow> False))"


subsection \<open>Repeated normalization\<close>


section \<open>Concrete runtimes\<close>

text \<open>
  A host with three functions: number 0 returns its first argument (as the method of
  \<open>TestModuleWrap\<close> records it), number 2 throws an exception, every other number
  returns the error of an interrupted run. Exporting the object at 13 runs its throwing
  getter; every other object exports to a Go value that is no string.
\<close>

definition example_host :: host where
  "example_host =
     \<lparr>natives = (\<lambda>n this args rt.
          if n = 0
          then (case args of [] \<Rightarrow> (Inr (Inr VUndefined), rt) | a # _ \<Rightarrow> (Inr (Inr a), rt))
          else if n = 2
          then (Inr (Inl (Exception (VString (ascii ''connection refused'')))), rt)
          else (Inr (Inl InterruptedError), rt)),
      export_object = (\<lambda>b rt.
          if b = 13 then (Inl (Raised (Exception (VString (ascii ''connection refused'')))), rt)
          else (Inr None, rt))\<rparr>"

text \<open>The lookup table of \<open>TestModuleWrap\<close>.\<close>

definition example_lookup :: "jstext \<rightharpoonup> jstext" where
  "example_lookup = [ascii ''https://example.com'' \<mapsto> ascii ''https://example.net'']"

definition plain_object :: "(string \<rightharpoonup> property) \<Rightarrow> object" where
  "plain_object ps =
     \<lparr>props = ps, proto = None, extensible = True, callable = None, goError = None\<rparr>"

text \<open>
  A heap: the global object at 0 and an empty object at 1; a target object at 2 with a
  callable attribute, a number and a read-only callable attribute; the host functions
  0, 2 and 3 at 3, 14 and 15; request descriptions whose \<open>body\<close> is a text (4),
  undefined (5), another object (6), absent (7), null (8), an accessor whose getter
  throws (9), a text that is a lone surrogate (10), a text inherited from the object at 4
  (11), and an object whose export raises (12, the object being 13).
\<close>

definition example_rt :: runtime where
  "example_rt =
     \<lparr>objects =
        [plain_object Map.empty,
         plain_object Map.empty,
         plain_object [''method'' \<mapsto> Data (VObject 3) True,
                       ''not_a_func'' \<mapsto> Data (VNumber 1) True,
                       ''sealed'' \<mapsto> Data (VObject 3) False],
         (plain_object Map.empty)\<lparr>callable := Some (Native 0)\<rparr>,
         plain_object [''body'' \<mapsto> Data (VString (ascii ''raw body content'')) True],
         plain_object [''body'' \<mapsto> Data VUndefined True],
         plain_object [''body'' \<mapsto> Data (VObject 7) True],
         plain_object Map.empty,
         plain_object [''body'' \<mapsto> Data VNull True],
         plain_object [''body'' \<mapsto> Accessor (Some 2) None],
         plain_object [''body'' \<mapsto> Data (VString [0xD800]) True],
         (plain_object Map.empty)\<lparr>proto := Some 4\<rparr>,
         plain_object [''body'' \<mapsto> Data (VObject 13) True],
         plain_object [''broken'' \<mapsto> Accessor (Some 2) None],
         (plain_object Map.empty)\<lparr>callable := Some (Native 2)\<rparr>,
         (plain_object Map.empty)\<lparr>callable := Some (Native 3)\<rparr>],
      globalObject = 0\<rparr>"

text \<open>
  A runtime whose namespace object, at 2, exposes each of the given names as the host
  function at 3.
\<close>

definition namespace_rt :: "string list \<Rightarrow> runtime" where
  "namespace_rt names =
     \<lparr>objects =
        [plain_object Map.empty,
         plain_object Map.empty,
         plain_object (map_of (map (\<lambda>m. (m, Data (VObject 3) True)) names)),
         (plain_object Map.empty)\<lparr>callable := Some (Native 0)\<rparr>],
      globalObject = 0\<rparr>"

section \<open>Properties of the runtime primitives\<close>





lemma lookup_own:
  assumes "a < length (objects rt)" and "props (objects rt ! a) name = Some p"
  shows "lookup_prop rt a name = Some (a, p)"
proof -
  from assms(1) obtain n where "length (objects rt) = Suc n" by (cases "length (objects rt)") auto
  with assms show ?thesis by (simp add: lookup_prop_def)
qed

lemma lookup_absent:
  assumes "a < length (objects rt)" and "props (objects rt ! a) name = None"
    and "proto (objects rt ! a) = None"
  shows "lookup_prop rt a name = None"
proof -
  from assms(1) obtain n where "length (objects rt) = Suc n" by (cases "length (objects rt)") auto
  with assms show ?thesis by (simp add: lookup_prop_def)
qed

lemma find_prop_SomeD:
  "find_prop n objs a name = Some (owner, p) \<Longrightarrow>
     a < length objs \<and> owner < length objs \<and> props (objs ! owner) name = Some p
     \<and> (owner \<noteq> a \<longrightarrow> props (objs ! a) name = None)"
proof (induction n arbitrary: a)
  case 0
  then show ?case by simp
next
  case (Suc n)
  then show ?case
    by (auto split: if_splits option.splits)
qed

lemma lookup_SomeD:
  "lookup_prop rt a name = Some (owner, p) \<Longrightarrow>
     a < length (objects rt) \<and> owner < length (objects rt)
     \<and> props (objects rt ! owner) name = Some p
     \<and> (owner \<noteq> a \<longrightarrow> props (objects rt ! a) name = None)"
  unfolding lookup_prop_def by (rule find_prop_SomeD)

lemma find_prop_stable:
  assumes "find_prop n objs a name = Some r"
    and "length objs \<le> length objs'" and "n \<le> n'"
    and "\<forall>b < length objs. props (objs' ! b) name = props (objs ! b) name
                          \<and> proto (objs' ! b) = proto (objs ! b)"
  shows "find_prop n' objs' a name = Some r"
  using assms(1,3)
proof (induction n arbitrary: a n')
  case 0
  then show ?case by simp
next
  case (Suc n)
  from Suc.prems(2) obtain m where n': "n' = Suc m" and le: "n \<le> m" by (cases n') auto
  from Suc.prems(1) have a: "a < length objs" by (simp split: if_splits)
  with assms(2,4) have a': "a < length objs'"
    and same: "props (objs' ! a) name = props (objs ! a) name" "proto (objs' ! a) = proto (objs ! a)"
    by auto
  show ?case
  proof (cases "props (objs ! a) name")
    case (Some p)
    with Suc.prems(1) a a' same n' show ?thesis by simp
  next
    case None
    with Suc.prems(1) a obtain b where b: "proto (objs ! a) = Some b"
      and rec: "find_prop n objs b name = Some r"
      by (auto split: option.splits)
    from Suc.IH [OF rec le] None b a' same n' show ?thesis by simp
  qed
qed


lemma Set_prop_assignable:
  assumes "assignable rt a name"
  shows "Set_prop h rt a name v = (Inr None, store_own rt a name v)"
  using assms by (auto simp: assignable_def Set_prop_def split: option.splits property.splits)

lemma Set_prop_refused:
  assumes "lookup_prop rt a name = Some (owner, Data old w)"
    and "\<not> (w \<and> (owner = a \<or> extensible (objects rt ! a)))"
  shows "Set_prop h rt a name v = (Inr (Some (TypeError name)), rt)"
  using assms by (auto simp: Set_prop_def)

lemma length_store_own [simp]: "length (objects (store_own rt a name v)) = length (objects rt)"
  by (simp add: store_own_def)

lemma globalObject_store_own [simp]: "globalObject (store_own rt a name v) = globalObject rt"
  by (simp add: store_own_def)

lemma nth_store_own:
  "b < length (objects rt) \<Longrightarrow>
     objects (store_own rt a name v) ! b =
       (if b = a then (objects rt ! a)\<lparr>props := (props (objects rt ! a))(name \<mapsto> Data v True)\<rparr>
        else objects rt ! b)"
  by (simp add: store_own_def nth_list_update)

lemma lookup_store_own:
  assumes "a < length (objects rt)"
  shows "lookup_prop (store_own rt a name v) a name = Some (a, Data v True)"
  by (rule lookup_own) (simp_all add: assms nth_store_own)

lemma lookup_ToValue_func:
  assumes "lookup_prop rt a name = Some r"
  shows "lookup_prop (snd (ToValue_func rt f)) a name = Some r"
  unfolding lookup_prop_def ToValue_func_def
  by (rule find_prop_stable [OF assms [unfolded lookup_prop_def]]) (simp_all add: nth_append)

lemma Get_data:
  "lookup_prop rt a name = Some (owner, Data v w) \<Longrightarrow> Get h rt a name = (Inr (Some v), rt)"
  by (simp add: Get_def)

lemma Get_absent:
  "lookup_prop rt a name = None \<Longrightarrow> Get h rt a name = (Inr None, rt)"
  by (simp add: Get_def)




lemma method_atD:
  assumes "method_at rt a name = Some f"
  obtains owner v w where "lookup_prop rt a name = Some (owner, Data v w)"
    and "AssertFunction rt (Some v) = Some f"
  using assms
  by (auto simp: method_at_def split: option.splits property.splits)

lemma AssertFunction_SomeD:
  assumes "AssertFunction rt (Some v) = Some f"
  obtains c where "v = VObject c" "c < length (objects rt)" "callable (objects rt ! c) = Some f"
  using assms by (cases v) (auto split: if_splits)

lemma assignableD:
  assumes "assignable rt a name"
  obtains owner v where "lookup_prop rt a name = Some (owner, Data v True)"
    and "owner = a \<or> extensible (objects rt ! a)" and "a < length (objects rt)"
proof (cases "lookup_prop rt a name")
  case None
  with assms show ?thesis by (simp add: assignable_def)
next
  case (Some r)
  obtain owner p where r: "r = (owner, p)" by (cases r)
  show ?thesis
  proof (cases p)
    case (Data v w)
    with assms Some r that show ?thesis by (simp add: assignable_def)
  next
    case (Accessor g st)
    with assms Some r show ?thesis by (simp add: assignable_def)
  qed
qed

text \<open>The runtime \<open>wrap\<close> leaves behind when it succeeds.\<close>

lemma wrap_installs:
  assumes f: "method_at rt d m = Some f" and w: "assignable rt d m"
  shows "\<exists>rt'. wrap h rt d m idx = (Inr (), rt')
           \<and> method_at rt' d m = Some (Wrapper f idx)
           \<and> (\<forall>m'. m' \<noteq> m \<longrightarrow> props (objects rt' ! d) m' = props (objects rt ! d) m')
           \<and> (\<forall>a<length (objects rt). a \<noteq> d \<longrightarrow> objects rt' ! a = objects rt ! a)
           \<and> (\<forall>m' g. m' \<noteq> m \<longrightarrow> method_at rt d m' = Some g \<longrightarrow> method_at rt' d m' = Some g)
           \<and> (\<forall>m'. m' \<noteq> m \<longrightarrow> assignable rt d m' \<longrightarrow> assignable rt' d m')
           \<and> length (objects rt) \<le> length (objects rt')
           \<and> d < length (objects rt)
           \<and> proto (objects rt' ! d) = proto (objects rt ! d)"
proof -
  let ?n = "length (objects rt)"
  define rt2 where "rt2 = snd (ToValue_func rt (Wrapper f idx))"
  let ?rt' = "store_own rt2 d m (VObject ?n)"
  from f obtain owner v w0 where lk: "lookup_prop rt d m = Some (owner, Data v w0)"
    and fn: "AssertFunction rt (Some v) = Some f"
    by (rule method_atD)
  from w have d: "d < ?n" by (simp add: assignable_def)
  have tv: "ToValue_func rt (Wrapper f idx) = (VObject ?n, rt2)"
    by (simp add: rt2_def ToValue_func_def)
  have len2: "length (objects rt2) = Suc ?n" by (simp add: rt2_def ToValue_func_def)
  have old2: "objects rt2 ! b = objects rt ! b" if "b < ?n" for b
    using that by (simp add: rt2_def ToValue_func_def nth_append)
  have new2: "objects rt2 ! ?n =
      \<lparr>props = Map.empty, proto = None, extensible = True, callable = Some (Wrapper f idx),
       goError = None\<rparr>"
    by (simp add: rt2_def ToValue_func_def)
  have lk2: "lookup_prop rt2 d m = Some (owner, Data v w0)"
    unfolding rt2_def by (rule lookup_ToValue_func [OF lk])
  from w lk have "w0 \<and> (owner = d \<or> extensible (objects rt ! d))"
    by (simp add: assignable_def)
  with lk2 d len2 old2 [OF d] have "assignable rt2 d m"
    by (simp add: assignable_def)
  then have set: "Set_prop h rt2 d m (VObject ?n) = (Inr None, ?rt')"
    by (rule Set_prop_assignable)
  have ok: "wrap h rt d m idx = (Inr (), ?rt')"
    using Get_data [OF lk, of h] fn tv set by (simp add: wrap_def)
  have d2: "d < length (objects rt2)" using d len2 by simp
  have at: "objects ?rt' ! b =
      (if b = d then (objects rt ! d)\<lparr>props := (props (objects rt ! d))(m \<mapsto> Data (VObject ?n) True)\<rparr>
       else objects rt ! b)" if "b < ?n" for b
    using that d old2 len2 by (simp add: nth_store_own)
  have at_new: "objects ?rt' ! ?n = objects rt2 ! ?n"
    using d len2 by (simp add: nth_store_own)
  have 1: "method_at ?rt' d m = Some (Wrapper f idx)"
    using lookup_store_own [OF d2, of m "VObject ?n"] at_new new2 len2
    by (simp add: method_at_def)
  have 2: "props (objects ?rt' ! d) m' = props (objects rt ! d) m'" if "m' \<noteq> m" for m'
    using that at [OF d] by simp
  have 3: "objects ?rt' ! a = objects rt ! a" if "a < ?n" "a \<noteq> d" for a
    using that at by simp
  have shape: "props (objects ?rt' ! b) m' = props (objects rt ! b) m'
      \<and> proto (objects ?rt' ! b) = proto (objects rt ! b)" if "b < ?n" "m' \<noteq> m" for b m'
    using that at [OF that(1)] by simp
  have calls: "callable (objects ?rt' ! b) = callable (objects rt ! b)" if "b < ?n" for b
    using at [OF that] by simp
  have keep_lookup: "lookup_prop ?rt' d m' = Some r"
    if "m' \<noteq> m" "lookup_prop rt d m' = Some r" for m' r
    unfolding lookup_prop_def
    by (rule find_prop_stable [OF that(2) [unfolded lookup_prop_def]])
      (use shape that(1) len2 in simp_all)
  have keep_fn: "AssertFunction ?rt' (Some u) = Some g" if "AssertFunction rt (Some u) = Some g" for u g
  proof -
    from that obtain c where "u = VObject c" "c < ?n" "callable (objects rt ! c) = Some g"
      by (rule AssertFunction_SomeD)
    with calls [of c] len2 show ?thesis by simp
  qed
  have 4: "method_at ?rt' d m' = Some g" if "m' \<noteq> m" "method_at rt d m' = Some g" for m' g
  proof -
    from that(2) obtain owner' v' w' where lk': "lookup_prop rt d m' = Some (owner', Data v' w')"
      and fn': "AssertFunction rt (Some v') = Some g"
      by (rule method_atD)
    from keep_lookup [OF that(1) lk'] keep_fn [OF fn'] show ?thesis
      by (simp add: method_at_def)
  qed
  have 5: "assignable ?rt' d m'" if "m' \<noteq> m" "assignable rt d m'" for m'
  proof -
    from that(2) obtain owner' v' where lk': "lookup_prop rt d m' = Some (owner', Data v' True)"
      and own: "owner' = d \<or> extensible (objects rt ! d)"
      by (rule assignableD)
    from keep_lookup [OF that(1) lk'] own d len2 at [OF d] show ?thesis
      by (simp add: assignable_def)
  qed
  have 6: "proto (objects ?rt' ! d) = proto (objects rt ! d)"
    using at [OF d] by simp
  from ok 1 2 3 4 5 6 d len2 show ?thesis
    by (intro exI [of _ ?rt']) simp
qed

lemma wrap_each_installs:
  assumes "distinct ms"
    and "\<forall>m\<in>set ms. (\<exists>f. method_at rt d m = Some f) \<and> assignable rt d m"
  shows "\<exists>rt'. wrap_each h rt d ms idx = (Inr (), rt')
           \<and> (\<forall>m\<in>set ms. method_at rt' d m = map_option (\<lambda>f. Wrapper f idx) (method_at rt d m))
           \<and> (\<forall>m. m \<notin> set ms \<longrightarrow> props (objects rt' ! d) m = props (objects rt ! d) m)
           \<and> (\<forall>a<length (objects rt). a \<noteq> d \<longrightarrow> objects rt' ! a = objects rt ! a)
           \<and> (\<forall>m g. m \<notin> set ms \<longrightarrow> method_at rt d m = Some g \<longrightarrow> method_at rt' d m = Some g)
           \<and> (\<forall>m. m \<notin> set ms \<longrightarrow> assignable rt d m \<longrightarrow> assignable rt' d m)
           \<and> length (objects rt) \<le> length (objects rt')
           \<and> proto (objects rt' ! d) = proto (objects rt ! d)"
  using assms
proof (induction ms arbitrary: rt)
  case Nil
  then show ?case by simp
next
  case (Cons m ms)
  from Cons.prems obtain f where f: "method_at rt d m = Some f"
    and w: "assignable rt d m" by auto
  from wrap_installs [OF f w, of h idx] obtain rt1 where
    step: "wrap h rt d m idx = (Inr (), rt1)"
    and new: "method_at rt1 d m = Some (Wrapper f idx)"
    and own1: "\<And>m'. m' \<noteq> m \<Longrightarrow> props (objects rt1 ! d) m' = props (objects rt ! d) m'"
    and obj1: "\<And>a. a < length (objects rt) \<Longrightarrow> a \<noteq> d \<Longrightarrow> objects rt1 ! a = objects rt ! a"
    and fn1: "\<And>m' g. m' \<noteq> m \<Longrightarrow> method_at rt d m' = Some g \<Longrightarrow> method_at rt1 d m' = Some g"
    and asg1: "\<And>m'. m' \<noteq> m \<Longrightarrow> assignable rt d m' \<Longrightarrow> assignable rt1 d m'"
    and len1: "length (objects rt) \<le> length (objects rt1)"
    and pr1: "proto (objects rt1 ! d) = proto (objects rt ! d)"
    by blast
  from Cons.prems have dist: "distinct ms" and notin: "m \<notin> set ms" by auto
  have ne: "m' \<noteq> m" if "m' \<in> set ms" for m' using that notin by auto
  have keep: "method_at rt1 d m' = method_at rt d m'" if "m' \<in> set ms" for m'
  proof -
    from that Cons.prems obtain g where g: "method_at rt d m' = Some g" by auto
    from fn1 [OF ne [OF that] g] g show ?thesis by simp
  qed
  have pre: "\<forall>m'\<in>set ms. (\<exists>f. method_at rt1 d m' = Some f) \<and> assignable rt1 d m'"
    using Cons.prems keep asg1 ne by auto
  from Cons.IH [OF dist pre] obtain rt' where
    rest: "wrap_each h rt1 d ms idx = (Inr (), rt')"
    and wrapped: "\<forall>m'\<in>set ms. method_at rt' d m' =
                   map_option (\<lambda>f. Wrapper f idx) (method_at rt1 d m')"
    and own2: "\<And>m'. m' \<notin> set ms \<Longrightarrow> props (objects rt' ! d) m' = props (objects rt1 ! d) m'"
    and obj2: "\<And>a. a < length (objects rt1) \<Longrightarrow> a \<noteq> d \<Longrightarrow> objects rt' ! a = objects rt1 ! a"
    and fn2: "\<And>m' g. m' \<notin> set ms \<Longrightarrow> method_at rt1 d m' = Some g \<Longrightarrow> method_at rt' d m' = Some g"
    and asg2: "\<And>m'. m' \<notin> set ms \<Longrightarrow> assignable rt1 d m' \<Longrightarrow> assignable rt' d m'"
    and len2: "length (objects rt1) \<le> length (objects rt')"
    and pr2: "proto (objects rt' ! d) = proto (objects rt1 ! d)"
    by blast
  have "wrap_each h rt d (m # ms) idx = (Inr (), rt')" using step rest by simp
  moreover have "\<forall>m'\<in>set (m # ms). method_at rt' d m' =
                   map_option (\<lambda>f. Wrapper f idx) (method_at rt d m')"
    using fn2 [OF notin new] f wrapped keep by auto
  moreover have "\<forall>m'. m' \<notin> set (m # ms) \<longrightarrow> props (objects rt' ! d) m' = props (objects rt ! d) m'"
    using own1 own2 by auto
  moreover have "\<forall>a<length (objects rt). a \<noteq> d \<longrightarrow> objects rt' ! a = objects rt ! a"
    using obj1 obj2 len1 by auto
  moreover have "\<forall>m' g. m' \<notin> set (m # ms) \<longrightarrow> method_at rt d m' = Some g \<longrightarrow> method_at rt' d m' = Some g"
    using fn1 fn2 by auto
  moreover have "\<forall>m'. m' \<notin> set (m # ms) \<longrightarrow> assignable rt d m' \<longrightarrow> assignable rt' d m'"
    using asg1 asg2 by auto
  moreover have "length (objects rt) \<le> length (objects rt')"
    using len1 len2 by simp
  moreover have "proto (objects rt' ! d) = proto (objects rt ! d)"
    using pr1 pr2 by simp
  ultimately show ?case by blast
qed

lemma wrap_each_append:
  "wrap_each h rt d (ms @ ms') i =
     (case wrap_each h rt d ms i of
        (Inl p, rt') \<Rightarrow> (Inl p, rt')
      | (Inr u, rt') \<Rightarrow> wrap_each h rt' d ms' i)"
  by (induction ms arbitrary: rt) (simp_all split: prod.splits sum.splits)

subsection \<open>Facts about the concrete runtimes\<close>

lemma example_target:
  "lookup_prop example_rt 2 ''method'' = Some (2, Data (VObject 3) True)"
  "lookup_prop example_rt 2 ''not_a_func'' = Some (2, Data (VNumber 1) True)"
  "lookup_prop example_rt 2 ''sealed'' = Some (2, Data (VObject 3) False)"
  "lookup_prop example_rt 2 ''missing'' = None"
  by (rule lookup_own lookup_absent; simp add: example_rt_def plain_object_def)+

lemma example_bodies:
  "lookup_prop example_rt 4 ''body'' = Some (4, Data (VString (ascii ''raw body content'')) True)"
  "lookup_prop example_rt 5 ''body'' = Some (5, Data VUndefined True)"
  "lookup_prop example_rt 6 ''body'' = Some (6, Data (VObject 7) True)"
  "lookup_prop example_rt 7 ''body'' = None"
  "lookup_prop example_rt 8 ''body'' = Some (8, Data VNull True)"
  "lookup_prop example_rt 9 ''body'' = Some (9, Accessor (Some 2) None)"
  "lookup_prop example_rt 10 ''body'' = Some (10, Data (VString [0xD800]) True)"
  "lookup_prop example_rt 12 ''body'' = Some (12, Data (VObject 13) True)"
  by (rule lookup_own lookup_absent; simp add: example_rt_def plain_object_def)+


lemma example_functions:
  "AssertFunction example_rt (Some (VObject 3)) = Some (Native 0)"
  "AssertFunction example_rt (Some (VNumber 1)) = None"
  "AssertFunction example_rt None = None"
  by (simp_all add: example_rt_def plain_object_def)

lemma example_natives:
  "natives example_host 0 this (a # args) rt = (Inr (Inr a), rt)"
  "natives example_host 2 this args rt =
     (Inr (Inl (Exception (VString (ascii ''connection refused'')))), rt)"
  "natives example_host 3 this args rt = (Inr (Inl InterruptedError), rt)"
  by (simp_all add: example_host_def)

lemma example_gets:
  "Get h example_rt 4 ''body'' = (Inr (Some (VString (ascii ''raw body content''))), example_rt)"
  "Get h example_rt 5 ''body'' = (Inr (Some VUndefined), example_rt)"
  "Get h example_rt 6 ''body'' = (Inr (Some (VObject 7)), example_rt)"
  "Get h example_rt 7 ''body'' = (Inr None, example_rt)"
  "Get h example_rt 8 ''body'' = (Inr (Some VNull), example_rt)"
  "Get h example_rt 10 ''body'' = (Inr (Some (VString [0xD800])), example_rt)"
  "Get h example_rt 12 ''body'' = (Inr (Some (VObject 13)), example_rt)"
  "Get example_host example_rt 9 ''body'' =
     (Inl (Raised (Exception (VString (ascii ''connection refused'')))), example_rt)"
  by (simp_all add: Get_def example_bodies example_natives)

lemma example_parse_primitive:
  "parseBody h rt [VString t] 0 = (Inr (), rt)"
  by (simp add: parseBody_def)

lemma example_parse_throwing:
  "parseBody example_host example_rt [VObject 9] 0 =
     (Inl (Raised (Exception (VString (ascii ''connection refused'')))), example_rt)"
  by (simp add: parseBody_def example_gets)

lemma example_rewrite:
  "rewrite example_lookup [VString (ascii ''https://example.com'')] 0 =
     [VString (ascii ''https://example.net'')]"
  "rewrite example_lookup [VObject a] 0 = [VObject a]"
  by (simp_all add: rewrite_def example_lookup_def)

lemma example_sealed:
  "wrap h example_rt 2 ''sealed'' 0 =
     (Inl (Raised (TypeError ''sealed'')), snd (ToValue_func example_rt (Wrapper (Native 0) 0)))"
proof -
  define rt2 where "rt2 = snd (ToValue_func example_rt (Wrapper (Native 0) 0))"
  have tv: "ToValue_func example_rt (Wrapper (Native 0) 0) = (VObject 16, rt2)"
    by (simp add: rt2_def ToValue_func_def example_rt_def)
  have "lookup_prop rt2 2 ''sealed'' = Some (2, Data (VObject 3) False)"
    unfolding rt2_def by (rule lookup_ToValue_func [OF example_target(3)])
  then have "Set_prop h rt2 2 ''sealed'' (VObject 16) = (Inr (Some (TypeError ''sealed'')), rt2)"
    by (rule Set_prop_refused) simp
  with Get_data [OF example_target(3), of h] example_functions(1) tv
  have "wrap h example_rt 2 ''sealed'' 0 = (Inl (Raised (TypeError ''sealed'')), rt2)"
    by (simp add: wrap_def Throw_def)
  then show ?thesis by (simp add: rt2_def)
qed

lemma namespace_method:
  assumes "m \<in> set names"
  shows "method_at (namespace_rt names) 2 m = Some (Native 0) \<and> assignable (namespace_rt names) 2 m"
proof -
  have p: "props (objects (namespace_rt names) ! 2) m = Some (Data (VObject 3) True)"
    using assms by (induction names) (auto simp: namespace_rt_def plain_object_def)
  have len: "2 < length (objects (namespace_rt names))" by (simp add: namespace_rt_def)
  from lookup_own [OF len p] show ?thesis
    by (simp add: method_at_def assignable_def) (simp add: namespace_rt_def plain_object_def)
qed


section \<open>The claims\<close>

text \<open>
  C1. For every string key of the Lookup Table the rewriter returns the mapped
  replacement; for a string that is no key, for a value that is no string, and for any
  value under the empty table it returns the value unchanged. The rewriter is a total
  function into values, so it has no error to raise.
\<close>

theorem rewrite_value_spec:
  "(lookup k = Some r \<longrightarrow> rewrite_value lookup (VString k) = VString r)
   \<and> (lookup k = None \<longrightarrow> rewrite_value lookup (VString k) = VString k)
   \<and> ((\<forall>s. v \<noteq> VString s) \<longrightarrow> rewrite_value lookup v = v)
   \<and> rewrite_value Map.empty v = v"
proof (intro conjI impI)
  assume "\<forall>s. v \<noteq> VString s"
  then show "rewrite_value lookup v = v" by (cases v) simp_all
next
  show "rewrite_value Map.empty v = v" by (cases v) simp_all
qed simp_all

theorem rewrite_value_spec_witness:
  "example_lookup (ascii ''https://example.com'') = Some (ascii ''https://example.net'')
   \<and> rewrite_value example_lookup (VString (ascii ''https://example.com'')) =
       VString (ascii ''https://example.net'')
   \<and> example_lookup (ascii ''https://example.org'') = None
   \<and> rewrite_value example_lookup (VString (ascii ''https://example.org'')) =
       VString (ascii ''https://example.org'')
   \<and> rewrite_value example_lookup (VNumber 42) = VNumber 42
   \<and> rewrite_value Map.empty (VString (ascii ''https://example.com'')) =
       VString (ascii ''https://example.com'')"
proof -
  have hit: "example_lookup (ascii ''https://example.com'') = Some (ascii ''https://example.net'')"
    by (simp add: example_lookup_def)
  have miss: "example_lookup (ascii ''https://example.org'') = None"
    by (simp add: example_lookup_def ascii_def)
  from rewrite_value_spec [of example_lookup "ascii ''https://example.com''"
      "ascii ''https://example.net''" "VNumber 42"]
    rewrite_value_spec [of example_lookup "ascii ''https://example.org''" "[]"
      "VString (ascii ''https://example.com'')"]
    hit miss
  show ?thesis by simp
qed

text \<open>
  C2, as amended. \<open>wrap\<close> raises the setup failure when the named attribute is absent
  or not callable. When the attribute holds a callable, \<open>wrap\<close> succeeds if the
  assignment of the wrapper returns no error, and throws the error if it returns one. In
  particular, for a data attribute that can be assigned to, \<open>wrap\<close> succeeds and the
  attribute then holds the wrapper of the original callable; for a read-only one the
  assignment is refused and \<open>wrap\<close> raises that type error. Invoking the wrapper runs
  the closure around the original callable: with too few arguments, or when the body
  normalizer returns, the closure reaches the original, against the global object and
  with the argument at the index rewritten; when the body normalizer panics (a \<open>body\<close>
  whose getter throws), that panic is the outcome and the original is not reached.
\<close>

theorem wrap_setup:
  "(Get h rt this name = (Inr v, rt_get) \<and> AssertFunction rt_get v = None \<longrightarrow>
      wrap h rt this name index = (Inl (InvalidArg (name @ '' must be callable'')), rt_get))
   \<and> (Get h rt this name = (Inr v, rt_get) \<and> AssertFunction rt_get v = Some orig
        \<and> ToValue_func rt_get (Wrapper orig index) = (w, rt_new)
        \<and> Set_prop h rt_new this name w = (Inr None, rt_set) \<longrightarrow>
        wrap h rt this name index = (Inr (), rt_set))
   \<and> (Get h rt this name = (Inr v, rt_get) \<and> AssertFunction rt_get v = Some orig
        \<and> ToValue_func rt_get (Wrapper orig index) = (w, rt_new)
        \<and> Set_prop h rt_new this name w = (Inr (Some err), rt_set) \<longrightarrow>
        wrap h rt this name index = Throw err rt_set)
   \<and> (method_at rt this name = Some orig \<and> assignable rt this name \<longrightarrow>
        (\<exists>rt'. wrap h rt this name index = (Inr (), rt')
           \<and> method_at rt' this name = Some (Wrapper orig index)))
   \<and> (method_at rt this name = Some orig \<and> \<not> assignable rt this name \<longrightarrow>
        wrap h rt this name index =
          (Inl (Raised (TypeError name)), snd (ToValue_func rt (Wrapper orig index))))
   \<and> call_func h lookup (Wrapper orig index) recv args rt_call =
        runWrapped (wrapper h lookup index (call_func h lookup orig)
          \<lparr>This = recv, Arguments = args\<rparr> rt_call)
   \<and> (\<not> index < length args \<longrightarrow>
        wrapper h lookup index (call_func h lookup orig) \<lparr>This = recv, Arguments = args\<rparr> rt_call =
          call_original (call_func h lookup orig) args rt_call)
   \<and> (index < length args
        \<and> parseBody h rt_call (rewrite lookup args index) index = (Inr (), rt_body) \<longrightarrow>
        wrapper h lookup index (call_func h lookup orig) \<lparr>This = recv, Arguments = args\<rparr> rt_call =
          call_original (call_func h lookup orig) (rewrite lookup args index) rt_body)
   \<and> (index < length args
        \<and> parseBody h rt_call (rewrite lookup args index) index = (Inl p, rt_body) \<longrightarrow>
        wrapper h lookup index (call_func h lookup orig) \<lparr>This = recv, Arguments = args\<rparr> rt_call =
          (Inl p, rt_body))"
proof (intro conjI impI)
  assume "Get h rt this name = (Inr v, rt_get) \<and> AssertFunction rt_get v = None"
  then show "wrap h rt this name index =
      (Inl (InvalidArg (name @ '' must be callable'')), rt_get)"
    by (simp add: wrap_def throwf_def)
next
  assume "Get h rt this name = (Inr v, rt_get) \<and> AssertFunction rt_get v = Some orig
        \<and> ToValue_func rt_get (Wrapper orig index) = (w, rt_new)
        \<and> Set_prop h rt_new this name w = (Inr None, rt_set)"
  then show "wrap h rt this name index = (Inr (), rt_set)"
    by (simp add: wrap_def)
next
  assume "Get h rt this name = (Inr v, rt_get) \<and> AssertFunction rt_get v = Some orig
        \<and> ToValue_func rt_get (Wrapper orig index) = (w, rt_new)
        \<and> Set_prop h rt_new this name w = (Inr (Some err), rt_set)"
  then show "wrap h rt this name index = Throw err rt_set"
    by (simp add: wrap_def)
next
  assume a: "method_at rt this name = Some orig \<and> assignable rt this name"
  from wrap_installs [of rt this name orig h index] a
  show "\<exists>rt'. wrap h rt this name index = (Inr (), rt')
           \<and> method_at rt' this name = Some (Wrapper orig index)"
    by blast
next
  assume a: "method_at rt this name = Some orig \<and> \<not> assignable rt this name"
  then obtain owner u w where lk: "lookup_prop rt this name = Some (owner, Data u w)"
    and fn: "AssertFunction rt (Some u) = Some orig"
    by (auto elim: method_atD)
  from lookup_SomeD [OF lk] have len: "this < length (objects rt)" by simp
  with a lk have no: "\<not> (w \<and> (owner = this \<or> extensible (objects rt ! this)))"
    by (simp add: assignable_def)
  define rt2' where "rt2' = snd (ToValue_func rt (Wrapper orig index))"
  have tv: "ToValue_func rt (Wrapper orig index) = (VObject (length (objects rt)), rt2')"
    by (simp add: rt2'_def ToValue_func_def)
  have lk2: "lookup_prop rt2' this name = Some (owner, Data u w)"
    unfolding rt2'_def by (rule lookup_ToValue_func [OF lk])
  have "objects rt2' ! this = objects rt ! this"
    using len by (simp add: rt2'_def ToValue_func_def nth_append)
  with no have no2: "\<not> (w \<and> (owner = this \<or> extensible (objects rt2' ! this)))" by simp
  from Set_prop_refused [OF lk2 no2, of h]
  have "Set_prop h rt2' this name (VObject (length (objects rt))) =
      (Inr (Some (TypeError name)), rt2')" .
  with Get_data [OF lk, of h] fn tv
  have "wrap h rt this name index = (Inl (Raised (TypeError name)), rt2')"
    by (simp add: wrap_def Throw_def)
  then show "wrap h rt this name index =
      (Inl (Raised (TypeError name)), snd (ToValue_func rt (Wrapper orig index)))"
    by (simp add: rt2'_def)
qed (simp_all add: wrapper_def)

theorem wrap_setup_witness:
  "wrap example_host example_rt 2 ''not_a_func'' 1 =
     (Inl (InvalidArg ''not_a_func must be callable''), example_rt)
   \<and> wrap example_host example_rt 2 ''missing'' 1 =
     (Inl (InvalidArg ''missing must be callable''), example_rt)
   \<and> (\<exists>rt'. wrap example_host example_rt 2 ''method'' 0 = (Inr (), rt')
          \<and> method_at rt' 2 ''method'' = Some (Wrapper (Native 0) 0))
   \<and> call_func example_host example_lookup (Wrapper (Native 0) 0) VUndefined
         [VString (ascii ''https://example.com'')] example_rt =
       (Inr (Inr (VString (ascii ''https://example.net''))), example_rt)
   \<and> wrap example_host example_rt 2 ''sealed'' 0 =
       (Inl (Raised (TypeError ''sealed'')), snd (ToValue_func example_rt (Wrapper (Native 0) 0)))
   \<and> call_func example_host example_lookup (Wrapper (Native 0) 0) VUndefined [VObject 9]
         example_rt =
       (Inr (Inl (Exception (VString (ascii ''connection refused'')))), example_rt)"
proof -
  have not_func: "Get example_host example_rt 2 ''not_a_func'' = (Inr (Some (VNumber 1)), example_rt)
      \<and> AssertFunction example_rt (Some (VNumber 1)) = None"
    by (simp add: Get_def example_target)
  have missing: "Get example_host example_rt 2 ''missing'' = (Inr None, example_rt)
      \<and> AssertFunction example_rt None = None"
    by (simp add: Get_def example_target)
  have is_func: "method_at example_rt 2 ''method'' = Some (Native 0)
      \<and> assignable example_rt 2 ''method''"
    by (simp add: method_at_def assignable_def example_target)
      (simp add: example_rt_def plain_object_def)
  have sealed: "method_at example_rt 2 ''sealed'' = Some (Native 0)
      \<and> \<not> assignable example_rt 2 ''sealed''"
    by (simp add: method_at_def assignable_def example_target)
      (simp add: example_rt_def plain_object_def)
  have echo: "call_original (call_func example_host example_lookup (Native 0))
      [VString (ascii ''https://example.net'')] example_rt =
      (Inr (VString (ascii ''https://example.net'')), example_rt)"
    by (simp add: call_original_def example_natives)
  note ws = wrap_setup [where h = example_host and rt = example_rt and this = 2
      and lookup = example_lookup and rt_call = example_rt and recv = VUndefined]
  from ws [where name = "''not_a_func''" and index = 1 and v = "Some (VNumber 1)"
      and rt_get = example_rt] not_func
  have 1: "wrap example_host example_rt 2 ''not_a_func'' 1 =
      (Inl (InvalidArg ''not_a_func must be callable''), example_rt)"
    by simp
  from ws [where name = "''missing''" and index = 1 and v = None and rt_get = example_rt]
    missing
  have 2: "wrap example_host example_rt 2 ''missing'' 1 =
      (Inl (InvalidArg ''missing must be callable''), example_rt)"
    by simp
  from ws [where name = "''method''" and index = 0 and orig = "Native 0"] is_func
  have 3: "\<exists>rt'. wrap example_host example_rt 2 ''method'' 0 = (Inr (), rt')
          \<and> method_at rt' 2 ''method'' = Some (Wrapper (Native 0) 0)"
    by simp
  from ws [where index = 0 and orig = "Native 0"
      and args = "[VString (ascii ''https://example.com'')]" and rt_body = example_rt]
    example_parse_primitive example_rewrite echo
  have 4: "call_func example_host example_lookup (Wrapper (Native 0) 0) VUndefined
         [VString (ascii ''https://example.com'')] example_rt =
       (Inr (Inr (VString (ascii ''https://example.net''))), example_rt)"
    by simp
  from ws [where name = "''sealed''" and index = 0 and orig = "Native 0"] sealed
  have 5: "wrap example_host example_rt 2 ''sealed'' 0 =
       (Inl (Raised (TypeError ''sealed'')), snd (ToValue_func example_rt (Wrapper (Native 0) 0)))"
    by simp
  from ws [where index = 0 and orig = "Native 0" and args = "[VObject 9]" and rt_body = example_rt
      and p = "Raised (Exception (VString (ascii ''connection refused'')))"]
    example_parse_throwing example_rewrite
  have 6: "call_func example_host example_lookup (Wrapper (Native 0) 0) VUndefined [VObject 9]
         example_rt =
       (Inr (Inl (Exception (VString (ascii ''connection refused'')))), example_rt)"
    by simp
  from 1 2 3 4 5 6 show ?thesis by simp
qed

text \<open>
  The claim C2 as it is stated fails twice: on a callable attribute that is read-only
  \<open>wrap\<close> does not succeed, and an invocation of the installed wrapper whose argument
  has a throwing \<open>body\<close> getter ends with that exception, where the original callable
  on the same arguments returns.
\<close>

theorem wrap_callable_read_only_counterexample:
  "method_at example_rt 2 ''sealed'' = Some (Native 0)
   \<and> wrap example_host example_rt 2 ''sealed'' 0 =
       (Inl (Raised (TypeError ''sealed'')), snd (ToValue_func example_rt (Wrapper (Native 0) 0)))
   \<and> call_func example_host example_lookup (Wrapper (Native 0) 0) VUndefined [VObject 9]
         example_rt =
       (Inr (Inl (Exception (VString (ascii ''connection refused'')))), example_rt)
   \<and> call_func example_host example_lookup (Native 0) (VObject 0) [VObject 9] example_rt =
       (Inr (Inr (VObject 9)), example_rt)"
proof -
  have "method_at example_rt 2 ''sealed'' = Some (Native 0)"
    by (simp add: method_at_def example_target) (simp add: example_rt_def plain_object_def)
  moreover have "call_func example_host example_lookup (Wrapper (Native 0) 0) VUndefined
      [VObject 9] example_rt =
      (Inr (Inl (Exception (VString (ascii ''connection refused'')))), example_rt)"
    by (simp add: wrapper_def example_rewrite example_parse_throwing)
  moreover have "call_func example_host example_lookup (Native 0) (VObject 0) [VObject 9]
      example_rt = (Inr (Inr (VObject 9)), example_rt)"
    by (simp add: example_natives)
  ultimately show ?thesis using example_sealed [of example_host] by simp
qed

text \<open>
  C3. A call that carries at most \<open>index\<close> arguments skips rewriting and normalization:
  the wrapper calls the original callable against the global object, on the original,
  short argument list and in the unchanged runtime, and throws its error or returns its
  value.
\<close>

theorem wrapper_short_call:
  assumes "length (Arguments call) \<le> index"
  shows "wrapper h lookup index orig call rt =
           (case orig (VObject (globalObject rt)) (Arguments call) rt of
              (Inl p, rt') \<Rightarrow> (Inl p, rt')
            | (Inr (Inl err), rt') \<Rightarrow> Throw err rt'
            | (Inr (Inr v), rt') \<Rightarrow> (Inr v, rt'))"
  using assms by (simp add: wrapper_def call_original_def)

theorem wrapper_short_call_witness:
  "wrapper example_host example_lookup 1 (call_func example_host example_lookup (Native 0))
        \<lparr>This = VObject 2, Arguments = [VString (ascii ''https://example.com'')]\<rparr> example_rt =
      (Inr (VString (ascii ''https://example.com'')), example_rt)"
  using wrapper_short_call [of "\<lparr>This = VObject 2, Arguments = [VString (ascii ''https://example.com'')]\<rparr>"
      1 example_host example_lookup "call_func example_host example_lookup (Native 0)" example_rt]
  by (simp add: example_natives)

text \<open>
  C4, as amended. On a namespace that exposes the nine names as assignable callables,
  module initialization succeeds and registers exactly \<open>get\<close>, \<open>head\<close>, \<open>post\<close>, \<open>put\<close>,
  \<open>patch\<close>, \<open>options\<close> and \<open>del\<close> (the name under which the DELETE verb is exported) with
  index 0, and exactly \<open>request\<close> and \<open>asyncRequest\<close> with index 1: each of these
  attributes then holds the wrapper of its original with that index, every other
  property of the namespace object is as before, and so is every other object.
\<close>

theorem wrapHTTPExports_registers:
  assumes "\<forall>m\<in>set [''get'', ''head'', ''post'', ''put'', ''patch'', ''options'', ''del'',
                      ''request'', ''asyncRequest''].
             (\<exists>f. method_at rt defaults m = Some f) \<and> assignable rt defaults m"
  shows "\<exists>rt'. wrapHTTPExports h rt defaults = (Inr (), rt')
           \<and> (\<forall>m\<in>set [''get'', ''head'', ''post'', ''put'', ''patch'', ''options'', ''del''].
                 method_at rt' defaults m = map_option (\<lambda>f. Wrapper f 0) (method_at rt defaults m))
           \<and> (\<forall>m\<in>set [''request'', ''asyncRequest''].
                 method_at rt' defaults m = map_option (\<lambda>f. Wrapper f 1) (method_at rt defaults m))
           \<and> (\<forall>m. m \<notin> set [''get'', ''head'', ''post'', ''put'', ''patch'', ''options'', ''del'',
                              ''request'', ''asyncRequest''] \<longrightarrow>
                 props (objects rt' ! defaults) m = props (objects rt ! defaults) m)
           \<and> (\<forall>a<length (objects rt). a \<noteq> defaults \<longrightarrow> objects rt' ! a = objects rt ! a)"
proof -
  have d1: "distinct urlFirstMethods" and d2: "distinct urlSecondMethods"
    and disj: "set urlFirstMethods \<inter> set urlSecondMethods = {}"
    by (simp_all add: urlFirstMethods_def urlSecondMethods_def)
  have pre1: "\<forall>m\<in>set urlFirstMethods.
      (\<exists>f. method_at rt defaults m = Some f) \<and> assignable rt defaults m"
    using assms by (simp add: urlFirstMethods_def)
  from wrap_each_installs [OF d1 pre1, of h 0] obtain rt1 where
    first: "wrap_each h rt defaults urlFirstMethods 0 = (Inr (), rt1)"
    and wrapped1: "\<forall>m\<in>set urlFirstMethods. method_at rt1 defaults m =
                   map_option (\<lambda>f. Wrapper f 0) (method_at rt defaults m)"
    and own1: "\<And>m. m \<notin> set urlFirstMethods \<Longrightarrow>
                 props (objects rt1 ! defaults) m = props (objects rt ! defaults) m"
    and obj1: "\<And>a. a < length (objects rt) \<Longrightarrow> a \<noteq> defaults \<Longrightarrow> objects rt1 ! a = objects rt ! a"
    and fn1: "\<And>m g. m \<notin> set urlFirstMethods \<Longrightarrow> method_at rt defaults m = Some g \<Longrightarrow>
                 method_at rt1 defaults m = Some g"
    and asg1: "\<And>m. m \<notin> set urlFirstMethods \<Longrightarrow> assignable rt defaults m \<Longrightarrow>
                 assignable rt1 defaults m"
    and len1: "length (objects rt) \<le> length (objects rt1)"
    by blast
  have second_pre: "(\<exists>f. method_at rt defaults m = Some f) \<and> assignable rt defaults m"
    if "m \<in> set urlSecondMethods" for m
    using that assms by (auto simp: urlSecondMethods_def)
  have ni1: "m \<notin> set urlFirstMethods" if "m \<in> set urlSecondMethods" for m
    using that disj by auto
  have keep1: "method_at rt1 defaults m = method_at rt defaults m"
    if "m \<in> set urlSecondMethods" for m
  proof -
    from second_pre [OF that] obtain g where g: "method_at rt defaults m = Some g" by auto
    from fn1 [OF ni1 [OF that] g] g show ?thesis by simp
  qed
  have pre2: "\<forall>m\<in>set urlSecondMethods.
      (\<exists>f. method_at rt1 defaults m = Some f) \<and> assignable rt1 defaults m"
    using second_pre keep1 asg1 ni1 by auto
  from wrap_each_installs [OF d2 pre2, of h 1] obtain rt2 where
    second: "wrap_each h rt1 defaults urlSecondMethods 1 = (Inr (), rt2)"
    and wrapped2: "\<forall>m\<in>set urlSecondMethods. method_at rt2 defaults m =
                   map_option (\<lambda>f. Wrapper f 1) (method_at rt1 defaults m)"
    and own2: "\<And>m. m \<notin> set urlSecondMethods \<Longrightarrow>
                 props (objects rt2 ! defaults) m = props (objects rt1 ! defaults) m"
    and obj2: "\<And>a. a < length (objects rt1) \<Longrightarrow> a \<noteq> defaults \<Longrightarrow> objects rt2 ! a = objects rt1 ! a"
    and fn2: "\<And>m g. m \<notin> set urlSecondMethods \<Longrightarrow> method_at rt1 defaults m = Some g \<Longrightarrow>
                 method_at rt2 defaults m = Some g"
    by blast
  have res: "wrapHTTPExports h rt defaults = (Inr (), rt2)"
    using first second by (simp add: wrapHTTPExports_def)
  have a: "method_at rt2 defaults m = map_option (\<lambda>f. Wrapper f 0) (method_at rt defaults m)"
    if "m \<in> set urlFirstMethods" for m
  proof -
    from that disj have ni: "m \<notin> set urlSecondMethods" by auto
    from that pre1 obtain f where f: "method_at rt defaults m = Some f" by auto
    with wrapped1 that have "method_at rt1 defaults m = Some (Wrapper f 0)" by simp
    from fn2 [OF ni this] f show ?thesis by simp
  qed
  have b: "method_at rt2 defaults m = map_option (\<lambda>f. Wrapper f 1) (method_at rt defaults m)"
    if "m \<in> set urlSecondMethods" for m
    using that wrapped2 keep1 by simp
  have c: "props (objects rt2 ! defaults) m = props (objects rt ! defaults) m"
    if "m \<notin> set urlFirstMethods" "m \<notin> set urlSecondMethods" for m
    using that own1 own2 by simp
  have e: "objects rt2 ! a = objects rt ! a" if "a < length (objects rt)" "a \<noteq> defaults" for a
    using that obj1 obj2 len1 by simp
  show ?thesis
  proof (intro exI [of _ rt2] conjI)
    show "wrapHTTPExports h rt defaults = (Inr (), rt2)" by (rule res)
    show "\<forall>m\<in>set [''get'', ''head'', ''post'', ''put'', ''patch'', ''options'', ''del''].
            method_at rt2 defaults m = map_option (\<lambda>f. Wrapper f 0) (method_at rt defaults m)"
      using a unfolding urlFirstMethods_def by blast
    show "\<forall>m\<in>set [''request'', ''asyncRequest''].
            method_at rt2 defaults m = map_option (\<lambda>f. Wrapper f 1) (method_at rt defaults m)"
      using b unfolding urlSecondMethods_def by blast
    show "\<forall>m. m \<notin> set [''get'', ''head'', ''post'', ''put'', ''patch'', ''options'', ''del'',
                         ''request'', ''asyncRequest''] \<longrightarrow>
            props (objects rt2 ! defaults) m = props (objects rt ! defaults) m"
      using c unfolding urlFirstMethods_def urlSecondMethods_def by simp
    show "\<forall>a<length (objects rt). a \<noteq> defaults \<longrightarrow> objects rt2 ! a = objects rt ! a"
      using e by blast
  qed
qed

theorem wrapHTTPExports_registers_witness:
  "\<exists>rt'. wrapHTTPExports example_host
           (namespace_rt [''get'', ''head'', ''post'', ''put'', ''patch'', ''options'',
                ''del'', ''request'', ''asyncRequest'', ''batch'']) 2 = (Inr (), rt')
     \<and> method_at rt' 2 ''get'' = Some (Wrapper (Native 0) 0)
     \<and> method_at rt' 2 ''del'' = Some (Wrapper (Native 0) 0)
     \<and> method_at rt' 2 ''request'' = Some (Wrapper (Native 0) 1)
     \<and> method_at rt' 2 ''asyncRequest'' = Some (Wrapper (Native 0) 1)
     \<and> props (objects rt' ! 2) ''batch'' = Some (Data (VObject 3) True)"
proof -
  let ?names = "[''get'', ''head'', ''post'', ''put'', ''patch'', ''options'',
                ''del'', ''request'', ''asyncRequest'', ''batch'']"
  let ?rt = "namespace_rt ?names"
  have pre: "\<forall>m\<in>set [''get'', ''head'', ''post'', ''put'', ''patch'', ''options'', ''del'',
                      ''request'', ''asyncRequest''].
             (\<exists>f. method_at ?rt 2 m = Some f) \<and> assignable ?rt 2 m"
    using namespace_method [of _ ?names] by simp
  have before: "method_at ?rt 2 ''get'' = Some (Native 0)"
    "method_at ?rt 2 ''del'' = Some (Native 0)"
    "method_at ?rt 2 ''request'' = Some (Native 0)"
    "method_at ?rt 2 ''asyncRequest'' = Some (Native 0)"
    using namespace_method [of _ ?names] by simp_all
  have batch: "props (objects ?rt ! 2) ''batch'' = Some (Data (VObject 3) True)"
    by (simp add: namespace_rt_def plain_object_def)
  from wrapHTTPExports_registers [OF pre, of example_host] obtain rt' where
    ok: "wrapHTTPExports example_host ?rt 2 = (Inr (), rt')"
    and first: "\<forall>m\<in>set [''get'', ''head'', ''post'', ''put'', ''patch'', ''options'', ''del''].
                 method_at rt' 2 m = map_option (\<lambda>f. Wrapper f 0) (method_at ?rt 2 m)"
    and second: "\<forall>m\<in>set [''request'', ''asyncRequest''].
                 method_at rt' 2 m = map_option (\<lambda>f. Wrapper f 1) (method_at ?rt 2 m)"
    and rest: "\<forall>m. m \<notin> set [''get'', ''head'', ''post'', ''put'', ''patch'', ''options'', ''del'',
                              ''request'', ''asyncRequest''] \<longrightarrow>
                 props (objects rt' ! 2) m = props (objects ?rt ! 2) m"
    by blast
  from first before have "method_at rt' 2 ''get'' = Some (Wrapper (Native 0) 0)"
    "method_at rt' 2 ''del'' = Some (Wrapper (Native 0) 0)"
    by simp_all
  moreover from second before have "method_at rt' 2 ''request'' = Some (Wrapper (Native 0) 1)"
    "method_at rt' 2 ''asyncRequest'' = Some (Wrapper (Native 0) 1)"
    by simp_all
  moreover from rest batch have "props (objects rt' ! 2) ''batch'' = Some (Data (VObject 3) True)"
    by simp
  ultimately show ?thesis using ok by blast
qed

text \<open>
  The claim C4 as it is stated names \<open>delete\<close>: that name is not registered, and on a
  namespace that exposes the claimed names initialization aborts, because \<open>del\<close> is the
  name that is wrapped.
\<close>

theorem wrapHTTPExports_delete_counterexample:
  "''delete'' \<notin> set urlFirstMethods \<and> ''del'' \<in> set urlFirstMethods
   \<and> fst (wrapHTTPExports example_host
          (namespace_rt [''get'', ''head'', ''post'', ''put'', ''patch'', ''options'',
             ''delete'', ''request'', ''asyncRequest'']) 2) =
       Inl (InvalidArg ''del must be callable'')"
proof -
  let ?names = "[''get'', ''head'', ''post'', ''put'', ''patch'', ''options'',
                ''delete'', ''request'', ''asyncRequest'']"
  let ?rt = "namespace_rt ?names"
  let ?six = "[''get'', ''head'', ''post'', ''put'', ''patch'', ''options'']"
  have pre: "\<forall>m\<in>set ?six. (\<exists>f. method_at ?rt 2 m = Some f) \<and> assignable ?rt 2 m"
    using namespace_method [of _ ?names] by simp
  have "distinct ?six" by simp
  from wrap_each_installs [OF this pre, of example_host 0] obtain rt1 where
    six: "wrap_each example_host ?rt 2 ?six 0 = (Inr (), rt1)"
    and own: "\<forall>m. m \<notin> set ?six \<longrightarrow> props (objects rt1 ! 2) m = props (objects ?rt ! 2) m"
    and len: "length (objects ?rt) \<le> length (objects rt1)"
    and pr: "proto (objects rt1 ! 2) = proto (objects ?rt ! 2)"
    by blast
  have "lookup_prop rt1 2 ''del'' = None"
  proof (rule lookup_absent)
    show "2 < length (objects rt1)" using len by (simp add: namespace_rt_def)
    show "props (objects rt1 ! 2) ''del'' = None"
      using own by (simp add: namespace_rt_def plain_object_def)
    show "proto (objects rt1 ! 2) = None"
      using pr by (simp add: namespace_rt_def plain_object_def)
  qed
  then have "Get example_host rt1 2 ''del'' = (Inr None, rt1)" by (rule Get_absent)
  then have del: "wrap example_host rt1 2 ''del'' 0 = (Inl (InvalidArg ''del must be callable''), rt1)"
    by (simp add: wrap_def throwf_def)
  have "wrap_each example_host ?rt 2 (?six @ [''del'']) 0 = wrap_each example_host rt1 2 [''del''] 0"
    by (subst wrap_each_append) (simp only: six sum.case prod.case)
  also have "\<dots> = (Inl (InvalidArg ''del must be callable''), rt1)"
    using del by simp
  finally have "wrap_each example_host ?rt 2 urlFirstMethods 0 =
      (Inl (InvalidArg ''del must be callable''), rt1)"
    by (simp only: urlFirstMethods_def append.simps)
  then have "wrapHTTPExports example_host ?rt 2 = (Inl (InvalidArg ''del must be callable''), rt1)"
    by (simp only: wrapHTTPExports_def sum.case prod.case)
  moreover have "''delete'' \<notin> set urlFirstMethods \<and> ''del'' \<in> set urlFirstMethods"
    by (simp add: urlFirstMethods_def)
  ultimately show ?thesis by simp
qed

text \<open>
  C5, as amended. With the index in range, \<open>parseBody\<close> returns silently, with no
  mutation and no error, when the value at the index is a primitive, that is, not an
  object. With the index out of range \<open>parseBody\<close> itself panics on the slice access;
  the wrapper never calls it then, and calls the original callable with the arguments
  and the runtime as they were.
\<close>

theorem parseBody_non_object:
  "(index < length args \<and> (\<forall>a. args ! index \<noteq> VObject a) \<longrightarrow>
      parseBody h rt args index = (Inr (), rt))
   \<and> (\<not> index < length args \<longrightarrow>
        parseBody h rt args index = (Inl (IndexOutOfRange index (length args)), rt)
        \<and> wrapper h lookup index orig \<lparr>This = this, Arguments = args\<rparr> rt =
            (case orig (VObject (globalObject rt)) args rt of
               (Inl p, rt') \<Rightarrow> (Inl p, rt')
             | (Inr (Inl err), rt') \<Rightarrow> Throw err rt'
             | (Inr (Inr v), rt') \<Rightarrow> (Inr v, rt')))"
proof (intro conjI impI)
  assume "index < length args \<and> (\<forall>a. args ! index \<noteq> VObject a)"
  then show "parseBody h rt args index = (Inr (), rt)"
    by (cases "args ! index") (simp_all add: parseBody_def)
next
  assume "\<not> index < length args"
  then show "parseBody h rt args index = (Inl (IndexOutOfRange index (length args)), rt)"
    by (simp add: parseBody_def)
next
  assume "\<not> index < length args"
  then show "wrapper h lookup index orig \<lparr>This = this, Arguments = args\<rparr> rt =
      (case orig (VObject (globalObject rt)) args rt of
         (Inl p, rt') \<Rightarrow> (Inl p, rt')
       | (Inr (Inl err), rt') \<Rightarrow> Throw err rt'
       | (Inr (Inr v), rt') \<Rightarrow> (Inr v, rt'))"
    by (simp add: wrapper_def call_original_def)
qed

theorem parseBody_non_object_witness:
  "parseBody example_host example_rt [VString (ascii ''https://example.com''), VNumber 7] 1 =
     (Inr (), example_rt)
   \<and> parseBody example_host example_rt [VString (ascii ''https://example.com'')] 1 =
     (Inl (IndexOutOfRange 1 1), example_rt)
   \<and> wrapper example_host example_lookup 1 (call_func example_host example_lookup (Native 0))
        \<lparr>This = VUndefined, Arguments = [VString (ascii ''https://example.com'')]\<rparr> example_rt =
      (Inr (VString (ascii ''https://example.com'')), example_rt)"
  using parseBody_non_object [of 1 "[VString (ascii ''https://example.com''), VNumber 7]"
      example_host example_rt]
    parseBody_non_object [of 1 "[VString (ascii ''https://example.com'')]" example_host example_rt
      example_lookup "call_func example_host example_lookup (Native 0)" VUndefined]
  by (simp add: example_natives)

text \<open>
  The claim C5 as it is stated fails for an index out of range: \<open>parseBody\<close> on the empty
  argument list raises the index panic instead of returning silently.
\<close>

theorem parseBody_out_of_range_counterexample:
  "parseBody example_host example_rt [] 0 = (Inl (IndexOutOfRange 0 0), example_rt)"
  by (simp add: parseBody_def)







text \<open>
  C8, as amended. Let \<open>args\<close> be the argument list the wrapper hands to the original
  callable, after a body normalization that returned. If the original fails with an
  exception of the runtime, the wrapper fails with the same exception; if the original
  returns a value, the wrapper returns the same value; a panic of the original passes
  through. In each case the runtime is the one the single call of the original left
  behind. If the original fails with an error that is no exception (an interrupted or
  overflowed run), the wrapper throws a new error object that wraps the error.
\<close>

theorem wrapper_propagates:
  assumes "args = (if index < length (Arguments call)
                   then rewrite lookup (Arguments call) index else Arguments call)"
    and "if index < length (Arguments call)
         then parseBody h rt args index = (Inr (), rt_body) else rt_body = rt"
  shows "(orig (VObject (globalObject rt_body)) args rt_body = (Inr (Inl err), rt') \<and> is_exception err \<longrightarrow>
            wrapper h lookup index orig call rt = (Inl (Raised err), rt'))
         \<and> (orig (VObject (globalObject rt_body)) args rt_body = (Inr (Inl err), rt')
              \<and> \<not> is_exception err \<longrightarrow>
            wrapper h lookup index orig call rt =
              (Inl (ThrownValue (fst (NewGoError rt' err))), snd (NewGoError rt' err)))
         \<and> (orig (VObject (globalObject rt_body)) args rt_body = (Inr (Inr v), rt') \<longrightarrow>
            wrapper h lookup index orig call rt = (Inr v, rt'))
         \<and> (orig (VObject (globalObject rt_body)) args rt_body = (Inl p, rt') \<longrightarrow>
            wrapper h lookup index orig call rt = (Inl p, rt'))"
proof -
  have "wrapper h lookup index orig call rt = call_original orig args rt_body"
    using assms by (simp add: wrapper_def split: if_splits)
  then show ?thesis
    by (simp add: call_original_def Throw_def split: prod.splits)
qed

theorem wrapper_propagates_witness:
  "wrapper example_host example_lookup 0 (call_func example_host example_lookup (Native 2))
      \<lparr>This = VUndefined, Arguments = [VString (ascii ''https://example.com'')]\<rparr> example_rt =
     (Inl (Raised (Exception (VString (ascii ''connection refused'')))), example_rt)
   \<and> wrapper example_host example_lookup 0 (call_func example_host example_lookup (Native 0))
      \<lparr>This = VUndefined, Arguments = [VString (ascii ''https://example.com'')]\<rparr> example_rt =
     (Inr (VString (ascii ''https://example.net'')), example_rt)
   \<and> wrapper example_host example_lookup 0 (call_func example_host example_lookup (Native 3))
      \<lparr>This = VUndefined, Arguments = [VString (ascii ''https://example.com'')]\<rparr> example_rt =
     (Inl (ThrownValue (fst (NewGoError example_rt InterruptedError))),
      snd (NewGoError example_rt InterruptedError))"
proof -
  let ?call = "\<lparr>This = VUndefined, Arguments = [VString (ascii ''https://example.com'')]\<rparr>"
  let ?args = "[VString (ascii ''https://example.net'')]"
  have args: "?args =
      (if 0 < length (Arguments ?call) then rewrite example_lookup (Arguments ?call) 0
       else Arguments ?call)"
    by (simp add: example_rewrite)
  have body: "if 0 < length (Arguments ?call)
      then parseBody example_host example_rt ?args 0 = (Inr (), example_rt)
      else example_rt = example_rt"
    by (simp add: example_parse_primitive)
  note wp = wrapper_propagates [OF args body, where rt' = example_rt]
  from wp [where orig = "call_func example_host example_lookup (Native 2)"
      and err = "Exception (VString (ascii ''connection refused''))"]
  have 1: "wrapper example_host example_lookup 0 (call_func example_host example_lookup (Native 2))
      ?call example_rt =
      (Inl (Raised (Exception (VString (ascii ''connection refused'')))), example_rt)"
    by (simp add: example_natives)
  from wp [where orig = "call_func example_host example_lookup (Native 0)"
      and v = "VString (ascii ''https://example.net'')"]
  have 2: "wrapper example_host example_lookup 0 (call_func example_host example_lookup (Native 0))
      ?call example_rt = (Inr (VString (ascii ''https://example.net'')), example_rt)"
    by (simp add: example_natives)
  from wp [where orig = "call_func example_host example_lookup (Native 3)"
      and err = InterruptedError]
  have 3: "wrapper example_host example_lookup 0 (call_func example_host example_lookup (Native 3))
      ?call example_rt =
      (Inl (ThrownValue (fst (NewGoError example_rt InterruptedError))),
       snd (NewGoError example_rt InterruptedError))"
    by (simp add: example_natives)
  from 1 2 3 show ?thesis by simp
qed

text \<open>
  The claim C8 as it is stated fails for an original that returns the error of an
  interrupted run: the wrapper's caller receives a thrown error object, newly allocated,
  instead of that error.
\<close>

theorem wrapper_wraps_interrupt_counterexample:
  "call_func example_host example_lookup (Native 3) (VObject 0)
      [VString (ascii ''https://example.net'')] example_rt =
     (Inr (Inl InterruptedError), example_rt)
   \<and> length (objects example_rt) = 16
   \<and> fst (wrapper example_host example_lookup 0
          (call_func example_host example_lookup (Native 3))
          \<lparr>This = VUndefined, Arguments = [VString (ascii ''https://example.com'')]\<rparr>
          example_rt) =
       Inl (ThrownValue (VObject 16))
   \<and> goError (objects (snd (wrapper example_host example_lookup 0
          (call_func example_host example_lookup (Native 3))
          \<lparr>This = VUndefined, Arguments = [VString (ascii ''https://example.com'')]\<rparr>
          example_rt)) ! 16) =
       Some InterruptedError"
proof -
  have len: "length (objects example_rt) = 16" by (simp add: example_rt_def)
  moreover have "globalObject example_rt = 0" by (simp add: example_rt_def)
  ultimately have "wrapper example_host example_lookup 0
      (call_func example_host example_lookup (Native 3))
      \<lparr>This = VUndefined, Arguments = [VString (ascii ''https://example.com'')]\<rparr> example_rt =
     (Inl (ThrownValue (VObject 16)),
      example_rt\<lparr>objects := objects example_rt @
        [\<lparr>props = Map.empty, proto = None, extensible = True, callable = None,
          goError = Some InterruptedError\<rparr>]\<rparr>)"
    by (simp add: wrapper_def example_rewrite example_parse_primitive call_original_def
        example_natives Throw_def NewGoError_def)
  with len show ?thesis by (simp add: example_natives nth_append)
qed




text \<open>
  C10. For a request description whose \<open>body\<close> is null, \<open>parseBody\<close> returns silently
  with the runtime unchanged: null is not undefined, so it passes the first check, and it
  does not export to a string, so the text branch is not taken.
\<close>

theorem parseBody_null_body:
  assumes "index < length args" and "args ! index = VObject reqObj"
    and "Get h rt reqObj ''body'' = (Inr (Some VNull), rt)"
  shows "parseBody h rt args index = (Inr (), rt) \<and> VNull \<noteq> VUndefined
         \<and> Export_string h rt VNull = (Inr None, rt)"
  using assms by (simp add: parseBody_def)

theorem parseBody_null_body_witness:
  "Get example_host example_rt 8 ''body'' = (Inr (Some VNull), example_rt)
   \<and> parseBody example_host example_rt [VObject 8] 0 = (Inr (), example_rt)"
  using parseBody_null_body [of 0 "[VObject 8]" 8 example_host example_rt] example_gets(5)
  by simp

end
